theory Spec2Isabelle
  imports Main "HOL-Library.Multiset"
begin

section \<open>Controller (src/c2\_server.py): data model\<close>

text \<open>
  The controller keeps its durable state in two SQLite tables, \<open>agents\<close> and
  \<open>commands\<close>, an append-only table \<open>activity_logs\<close>, and one in-memory dictionary
  \<open>connected_agents\<close>. A table is a list of rows in insertion (rowid) order.
  \<open>CURRENT_TIMESTAMP\<close> is an input \<open>now\<close> of every operation that reads the clock; the
  values drawn from \<open>uuid.uuid4()\<close> and \<open>Fernet.generate_key()\<close> are inputs as well.
  A request body is the JSON object the handlers read with \<open>data.get\<close>: a field is
  absent (\<open>None\<close>) or carries a value of the type the handler expects.

  The column \<open>commands.status\<close> is TEXT; its vocabulary is the enumeration below, where
  \<open>Pending\<close> is the literal 'pending' (the column default) and \<open>Completed\<close> the literal
  'completed'. Likewise \<open>Active\<close> is 'active' (the default of \<open>agents.status\<close>) and
  \<open>Manual\<close> is 'manual'. \<open>Sent\<close>, \<open>Failed\<close> and \<open>Stale\<close> stand for the remaining
  words of the documented vocabulary; no statement of the controller writes them.
\<close>

datatype cmd_status = Pending | Sent | Completed | Failed

datatype agent_status = Active | Stale | Manual

record agent =
  ag_id :: string
  ag_hostname :: string
  ag_username :: string
  ag_os_info :: string
  ag_ip_address :: string
  ag_first_seen :: nat
  ag_last_seen :: nat
  ag_status :: agent_status
  ag_encryption_key :: string
  ag_capabilities :: "string list"

record command =
  cmd_id :: nat
  cmd_agent_id :: string
  cmd_command :: string
  cmd_status :: cmd_status
  cmd_created_at :: nat
  cmd_executed_at :: "nat option"
  cmd_result :: "string option"

text \<open>The rows \<open>db.log_activity\<close> appends, by the event they record.\<close>

datatype activity =
    AgentRegistered string
  | AgentAddedManually string
  | AgentDeleted string
  | CommandSent string nat
  | ResultReceived string
  | AgentDisconnected string

text \<open>
  \<open>command_seq\<close> is the row of \<open>sqlite_sequence\<close> for the AUTOINCREMENT key of
  \<open>commands\<close>: the largest id ever handed out, so that an id is never reused, even after
  its row was deleted.
\<close>

record c2_state =
  agents :: "agent list"
  commands :: "command list"
  command_seq :: nat
  connected_agents :: "(string \<times> string) list"
  activity_logs :: "activity list"

definition init_database :: c2_state where
  "init_database =
     \<lparr>agents = [], commands = [], command_seq = 0,
      connected_agents = [], activity_logs = []\<rparr>"

text \<open>What a handler answers when it does not answer 200.\<close>

datatype error =
    MissingField string   \<comment> \<open>400, 'Champ requis manquant'\<close>
  | CommandRequired       \<comment> \<open>400, 'Commande requise'\<close>
  | AgentNotFound         \<comment> \<open>404, 'Agent non trouv\'e'\<close>
  | DuplicateIp           \<comment> \<open>409\<close>
  | ServerError           \<comment> \<open>500: an exception left the handler or was caught by it\<close>

text \<open>The events handed to \<open>socketio.emit\<close>, with the room they go to.\<close>

datatype event =
    NewCommand string nat string              \<comment> \<open>room: the agent id\<close>
  | CommandResult string "int option" "string option"   \<comment> \<open>room 'admins'\<close>
  | AgentOnline string                        \<comment> \<open>room 'admins'\<close>

record agent_request =
  req_hostname :: "string option"
  req_username :: "string option"
  req_os_info :: "string option"
  req_ip_address :: "string option"
  req_capabilities :: "string list option"

section \<open>Controller: operations\<close>

definition log_activity :: "activity \<Rightarrow> c2_state \<Rightarrow> c2_state" where
  "log_activity e st = st\<lparr>activity_logs := activity_logs st @ [e]\<rparr>"

definition agent_ids :: "c2_state \<Rightarrow> string list" where
  "agent_ids st = map ag_id (agents st)"

definition get_default :: "'a option \<Rightarrow> 'a \<Rightarrow> 'a" where
  "get_default v d = (case v of None \<Rightarrow> d | Some x \<Rightarrow> x)"

text \<open>
  \<open>base64.b64encode(key).decode()\<close>: the bytes, eight bits each and the high bit first,
  are cut into groups of six bits (the last group filled up with zeros), each group is
  the index of a letter of the alphabet, and \<open>=\<close> pads the text to a multiple of four.
\<close>

definition b64_alphabet :: string where
  "b64_alphabet = ''ABCDEFGHIJKLMNOPQRSTUVWXYZabcdefghijklmnopqrstuvwxyz0123456789+/''"

definition bits_of_char :: "char \<Rightarrow> bool list" where
  "bits_of_char c =
     (case c of Char b0 b1 b2 b3 b4 b5 b6 b7 \<Rightarrow> [b7, b6, b5, b4, b3, b2, b1, b0])"

definition bits_value :: "bool list \<Rightarrow> nat" where
  "bits_value bs = foldl (\<lambda>n b. 2 * n + (if b then 1 else 0)) 0 bs"

fun sextets :: "bool list \<Rightarrow> nat list" where
  "sextets (a # b # c # d # e # f # rest) = bits_value [a, b, c, d, e, f] # sextets rest"
| "sextets [] = []"
| "sextets rest = [bits_value (take 6 (rest @ [False, False, False, False, False]))]"

definition b64encode :: "string \<Rightarrow> string" where
  "b64encode s =
     map (\<lambda>n. b64_alphabet ! n) (sextets (concat (map bits_of_char s)))
     @ (if length s mod 3 = 1 then ''=='' else if length s mod 3 = 2 then ''='' else [])"

text \<open>
  \<open>register_agent\<close>: no \<open>jwt_required\<close>. The id is what \<open>uuid.uuid4()\<close> drew and the key
  what \<open>Fernet.generate_key()\<close> drew; the handler compares neither with what is stored.
  The INSERT fails on a primary key that is already there (sqlite3.IntegrityError, which
  nothing catches: a 500, nothing committed). The row's \<open>first_seen\<close>, \<open>last_seen\<close> and
  \<open>status\<close> are the column defaults; the key is stored, and returned, base64-encoded.
\<close>

definition register_agent ::
  "agent_request \<Rightarrow> string \<Rightarrow> string \<Rightarrow> string \<Rightarrow> nat \<Rightarrow> c2_state
     \<Rightarrow> error + (c2_state \<times> string \<times> string)" where
  "register_agent data remote_addr uuid4 encryption_key now st =
     (if uuid4 \<in> set (agent_ids st) then Inl ServerError
      else
        let row = \<lparr>ag_id = uuid4,
                   ag_hostname = get_default (req_hostname data) [],
                   ag_username = get_default (req_username data) [],
                   ag_os_info = get_default (req_os_info data) [],
                   ag_ip_address = remote_addr,
                   ag_first_seen = now, ag_last_seen = now, ag_status = Active,
                   ag_encryption_key = b64encode encryption_key,
                   ag_capabilities = get_default (req_capabilities data) []\<rparr>;
            st1 = st\<lparr>agents := agents st @ [row]\<rparr>
        in Inr (log_activity (AgentRegistered uuid4) st1, uuid4, b64encode encryption_key))"

text \<open>
  \<open>add_agent_manually\<close>: the four required fields are checked in order (\<open>not data.get(field)\<close>
  holds for an absent and for an empty field), then the IP address must be new. The whole
  body is inside \<open>try\<close>, so a failing INSERT is answered with 500.
\<close>

definition is_falsy :: "string option \<Rightarrow> bool" where
  "is_falsy v = (case v of None \<Rightarrow> True | Some s \<Rightarrow> s = [])"

definition add_agent_manually ::
  "agent_request \<Rightarrow> string \<Rightarrow> string \<Rightarrow> nat \<Rightarrow> c2_state
     \<Rightarrow> error + (c2_state \<times> string)" where
  "add_agent_manually data uuid4 encryption_key now st =
     (if is_falsy (req_hostname data) then Inl (MissingField ''hostname'')
      else if is_falsy (req_username data) then Inl (MissingField ''username'')
      else if is_falsy (req_os_info data) then Inl (MissingField ''os_info'')
      else if is_falsy (req_ip_address data) then Inl (MissingField ''ip_address'')
      else if get_default (req_ip_address data) [] \<in> set (map ag_ip_address (agents st))
        then Inl DuplicateIp
      else if uuid4 \<in> set (agent_ids st) then Inl ServerError
      else
        let row = \<lparr>ag_id = uuid4,
                   ag_hostname = get_default (req_hostname data) [],
                   ag_username = get_default (req_username data) [],
                   ag_os_info = get_default (req_os_info data) [],
                   ag_ip_address = get_default (req_ip_address data) [],
                   ag_first_seen = now, ag_last_seen = now, ag_status = Manual,
                   ag_encryption_key = b64encode encryption_key,
                   ag_capabilities = get_default (req_capabilities data) [''manual_entry'']\<rparr>;
            st1 = st\<lparr>agents := agents st @ [row]\<rparr>
        in Inr (log_activity (AgentAddedManually uuid4) st1, uuid4))"

text \<open>
  \<open>delete_agent\<close>: 404 when \<open>SELECT hostname FROM agents WHERE id = ?\<close> finds no row;
  otherwise both DELETE statements, one commit.
\<close>

definition delete_agent :: "string \<Rightarrow> c2_state \<Rightarrow> error + (c2_state \<times> unit)" where
  "delete_agent agent_id st =
     (case find (\<lambda>a. ag_id a = agent_id) (agents st) of
        None \<Rightarrow> Inl AgentNotFound
      | Some agent \<Rightarrow>
          let st1 = st\<lparr>commands := filter (\<lambda>c. cmd_agent_id c \<noteq> agent_id) (commands st)\<rparr>;
              st2 = st1\<lparr>agents := filter (\<lambda>a. ag_id a \<noteq> agent_id) (agents st1)\<rparr>
          in Inr (log_activity (AgentDeleted agent_id) st2, ()))"

text \<open>
  \<open>send_command\<close>: \<open>not command\<close> (absent or empty) is answered first, then the agent
  lookup, then the INSERT, which leaves \<open>status\<close> to its default. The new id is
  \<open>cursor.lastrowid\<close>. The command is emitted to the agent's room when the agent id is a
  key of \<open>connected_agents\<close>; no statement of the handler touches the row after the INSERT.
\<close>

definition send_command ::
  "string \<Rightarrow> string option \<Rightarrow> nat \<Rightarrow> c2_state
     \<Rightarrow> error + (c2_state \<times> nat \<times> event list)" where
  "send_command agent_id command now st =
     (if is_falsy command then Inl CommandRequired
      else if find (\<lambda>a. ag_id a = agent_id) (agents st) = None then Inl AgentNotFound
      else
        let text = get_default command [];
            command_id = Suc (command_seq st);
            row = \<lparr>cmd_id = command_id, cmd_agent_id = agent_id, cmd_command = text,
                   cmd_status = Pending, cmd_created_at = now,
                   cmd_executed_at = None, cmd_result = None\<rparr>;
            st1 = st\<lparr>commands := commands st @ [row], command_seq := command_id\<rparr>;
            emitted = (if agent_id \<in> set (map fst (connected_agents st))
                       then [NewCommand agent_id command_id text] else [])
        in Inr (log_activity (CommandSent agent_id command_id) st1, command_id, emitted))"

text \<open>
  \<open>agent_checkin\<close>: one UPDATE of the agent's row (no row, no change), one SELECT of the
  agent's pending commands ordered by \<open>created_at\<close>, then the commit. Rows with the same
  \<open>created_at\<close> keep their rowid order (\<open>sort_key\<close> is stable). The answer is always 200.
\<close>

definition touch :: "string \<Rightarrow> nat \<Rightarrow> agent \<Rightarrow> agent" where
  "touch agent_id now a =
     (if ag_id a = agent_id then a\<lparr>ag_last_seen := now, ag_status := Active\<rparr> else a)"

definition pending_commands :: "string \<Rightarrow> c2_state \<Rightarrow> command list" where
  "pending_commands agent_id st =
     sort_key cmd_created_at
       (filter (\<lambda>c. cmd_agent_id c = agent_id \<and> cmd_status c = Pending) (commands st))"

definition agent_checkin ::
  "string \<Rightarrow> nat \<Rightarrow> c2_state \<Rightarrow> error + (c2_state \<times> (nat \<times> string) list)" where
  "agent_checkin agent_id now st =
     (let st1 = st\<lparr>agents := map (touch agent_id now) (agents st)\<rparr>
      in Inr (st1, map (\<lambda>c. (cmd_id c, cmd_command c)) (pending_commands agent_id st1)))"

text \<open>
  \<open>submit_result\<close>: one UPDATE \<open>WHERE id = ? AND agent_id = ?\<close>, whose row count is not
  read; the event and the log entry follow and the answer is 200. A \<open>command_id\<close> that is
  absent from the body is SQL NULL and matches no row. A \<open>command_id\<close> is a JSON integer,
  which Python reads without bound: binding one outside SQLite's 64-bit range raises
  OverflowError in \<open>cursor.execute\<close>, which nothing catches (a 500: no update, no event,
  no log row).
\<close>

definition sqlite_integer :: "int \<Rightarrow> bool" where
  "sqlite_integer i \<longleftrightarrow> - (2 ^ 63) \<le> i \<and> i < 2 ^ 63"

definition binds :: "int option \<Rightarrow> bool" where
  "binds v = (case v of None \<Rightarrow> True | Some i \<Rightarrow> sqlite_integer i)"

definition complete :: "string \<Rightarrow> int option \<Rightarrow> string option \<Rightarrow> nat \<Rightarrow> command \<Rightarrow> command" where
  "complete agent_id command_id result now c =
     (if Some (int (cmd_id c)) = command_id \<and> cmd_agent_id c = agent_id
      then c\<lparr>cmd_status := Completed, cmd_executed_at := Some now, cmd_result := result\<rparr>
      else c)"

definition submit_result ::
  "string \<Rightarrow> int option \<Rightarrow> string option \<Rightarrow> nat \<Rightarrow> c2_state
     \<Rightarrow> error + (c2_state \<times> event list)" where
  "submit_result agent_id command_id result now st =
     (if \<not> binds command_id then Inl ServerError
      else
        let st1 = st\<lparr>commands := map (complete agent_id command_id result now) (commands st)\<rparr>
        in Inr (log_activity (ResultReceived agent_id) st1,
                [CommandResult agent_id command_id result]))"

text \<open>
  The push channel. \<open>connected_agents\<close> is a Python dict from agent id to session id: an
  association list in insertion order, where assigning to a key that is there replaces its
  value in place. \<open>handle_join_agent\<close> stores the session id under the agent id when the
  announced id is truthy; \<open>handle_disconnect\<close> deletes every key held by the session and
  logs each one.
\<close>

fun dict_set :: "'k \<Rightarrow> 'v \<Rightarrow> ('k \<times> 'v) list \<Rightarrow> ('k \<times> 'v) list" where
  "dict_set k v [] = [(k, v)]"
| "dict_set k v (p # ps) = (if fst p = k then (k, v) # ps else p # dict_set k v ps)"

definition handle_join_agent :: "string option \<Rightarrow> string \<Rightarrow> c2_state \<Rightarrow> c2_state \<times> event list" where
  "handle_join_agent agent_id sid st =
     (if is_falsy agent_id then (st, [])
      else
        let a = get_default agent_id []
        in (st\<lparr>connected_agents := dict_set a sid (connected_agents st)\<rparr>, [AgentOnline a]))"

definition handle_disconnect :: "string \<Rightarrow> c2_state \<Rightarrow> c2_state" where
  "handle_disconnect sid st =
     (let gone = filter (\<lambda>p. snd p = sid) (connected_agents st);
          st1 = st\<lparr>connected_agents := filter (\<lambda>p. snd p \<noteq> sid) (connected_agents st)\<rparr>
      in fold (\<lambda>p. log_activity (AgentDisconnected (fst p))) gone st1)"

section \<open>Reachable controller states\<close>

text \<open>
  A state is reachable when the handlers above lead to it from the empty database. A
  handler that answers with an error commits nothing, so only successful calls are steps.
\<close>

inductive reachable :: "c2_state \<Rightarrow> bool" where
  r_init: "reachable init_database"
| r_register:
    "reachable st \<Longrightarrow> register_agent data addr u k now st = Inr (st', r) \<Longrightarrow> reachable st'"
| r_add:
    "reachable st \<Longrightarrow> add_agent_manually data u k now st = Inr (st', r) \<Longrightarrow> reachable st'"
| r_delete:
    "reachable st \<Longrightarrow> delete_agent a st = Inr (st', r) \<Longrightarrow> reachable st'"
| r_send:
    "reachable st \<Longrightarrow> send_command a c now st = Inr (st', r) \<Longrightarrow> reachable st'"
| r_checkin:
    "reachable st \<Longrightarrow> agent_checkin a now st = Inr (st', r) \<Longrightarrow> reachable st'"
| r_result:
    "reachable st \<Longrightarrow> submit_result a cid res now st = Inr (st', r) \<Longrightarrow> reachable st'"
| r_join:
    "reachable st \<Longrightarrow> handle_join_agent ao sid st = (st', ev) \<Longrightarrow> reachable st'"
| r_disconnect:
    "reachable st \<Longrightarrow> reachable (handle_disconnect sid st)"

text \<open>The steps of the command ledger alone: enqueue, check-in, result ingestion.\<close>

inductive ledger_step :: "c2_state \<Rightarrow> c2_state \<Rightarrow> bool" where
  l_enqueue: "send_command a c now st = Inr (st', r) \<Longrightarrow> ledger_step st st'"
| l_claim: "agent_checkin a now st = Inr (st', r) \<Longrightarrow> ledger_step st st'"
| l_ingest: "submit_result a cid res now st = Inr (st', r) \<Longrightarrow> ledger_step st st'"

text \<open>The documented order of the statuses: PENDING, then SENT, then COMPLETED or FAILED.\<close>

fun status_rank :: "cmd_status \<Rightarrow> nat" where
  "status_rank Pending = 0"
| "status_rank Sent = 1"
| "status_rank Completed = 2"
| "status_rank Failed = 2"

definition advances :: "command \<Rightarrow> command \<Rightarrow> bool" where
  "advances c c' \<longleftrightarrow>
     cmd_id c' = cmd_id c \<and> cmd_agent_id c' = cmd_agent_id c \<and>
     status_rank (cmd_status c) \<le> status_rank (cmd_status c')"

text \<open>
  What every reachable state satisfies: command ids are distinct and at most
  \<open>command_seq\<close>, agent ids are distinct, and every command belongs to a stored agent.
\<close>

definition ledger_inv :: "c2_state \<Rightarrow> bool" where
  "ledger_inv st \<longleftrightarrow>
     distinct (map cmd_id (commands st)) \<and>
     (\<forall>c \<in> set (commands st). cmd_id c \<le> command_seq st) \<and>
     distinct (agent_ids st) \<and>
     (\<forall>c \<in> set (commands st). cmd_agent_id c \<in> set (agent_ids st))"

section \<open>Agent runtime (src/c2\_agent.py): command execution\<close>

text \<open>
  A Python \<open>str\<close> is modelled by its UTF-8 bytes, so a character beyond ASCII is a
  sequence of two to four bytes, none of them an ASCII byte.

  \<open>lower\<close> is \<open>str.lower\<close> as far as ASCII letters are concerned. It maps the ASCII
  capitals, and the two characters beyond ASCII whose lower case contains an ASCII
  letter: KELVIN SIGN (U+212A), whose lower case is \<open>k\<close>, and LATIN CAPITAL LETTER I WITH
  DOT ABOVE (U+0130), whose lower case is \<open>i\<close> followed by U+0307. Every other character
  beyond ASCII is left as it is: its lower case is beyond ASCII again, and the only use
  of \<open>lower\<close> is the search for the ASCII patterns of the denylist, which cannot tell the
  two apart.

  \<open>strip\<close> is \<open>str.strip()\<close>: it removes, at both ends, the characters for which
  \<open>str.isspace\<close> holds, listed in \<open>whitespace\<close> by their UTF-8 bytes.
\<close>

definition cross_mark :: string where
  "cross_mark = [CHR 0xE2, CHR 0x9D, CHR 0x8C]"

definition e_acute :: string where
  "e_acute = [CHR 0xC3, CHR 0xA9]"

definition e_grave :: string where
  "e_grave = [CHR 0xC3, CHR 0xA8]"

definition kelvin_sign :: string where
  "kelvin_sign = [CHR 0xE2, CHR 0x84, CHR 0xAA]"

definition capital_i_dot :: string where
  "capital_i_dot = [CHR 0xC4, CHR 0xB0]"

definition lower_char :: "char \<Rightarrow> char" where
  "lower_char c =
     (case map_of (zip ''ABCDEFGHIJKLMNOPQRSTUVWXYZ'' ''abcdefghijklmnopqrstuvwxyz'') c of
        Some l \<Rightarrow> l
      | None \<Rightarrow> c)"

fun lower :: "string \<Rightarrow> string" where
  "lower (a # b # c # s) =
     (if [a, b, c] = kelvin_sign then CHR ''k'' # lower s
      else if [a, b] = capital_i_dot then [CHR ''i'', CHR 0xCC, CHR 0x87] @ lower (c # s)
      else lower_char a # lower (b # c # s))"
| "lower [a, b] =
     (if [a, b] = capital_i_dot then [CHR ''i'', CHR 0xCC, CHR 0x87]
      else [lower_char a, lower_char b])"
| "lower [a] = [lower_char a]"
| "lower [] = []"

fun startswith :: "string \<Rightarrow> string \<Rightarrow> bool" where
  "startswith s [] = True"
| "startswith [] (p # ps) = False"
| "startswith (c # cs) (p # ps) = (c = p \<and> startswith cs ps)"

text \<open>
  U+0009 to U+000D, U+001C to U+0020, U+0085, U+00A0, U+1680, U+2000 to U+200A, U+2028,
  U+2029, U+202F, U+205F and U+3000.
\<close>

definition whitespace :: "string list" where
  "whitespace =
     [[CHR 0x09], [CHR 0x0A], [CHR 0x0B], [CHR 0x0C], [CHR 0x0D],
      [CHR 0x1C], [CHR 0x1D], [CHR 0x1E], [CHR 0x1F], [CHR 0x20],
      [CHR 0xC2, CHR 0x85], [CHR 0xC2, CHR 0xA0], [CHR 0xE1, CHR 0x9A, CHR 0x80],
      [CHR 0xE2, CHR 0x80, CHR 0x80], [CHR 0xE2, CHR 0x80, CHR 0x81],
      [CHR 0xE2, CHR 0x80, CHR 0x82], [CHR 0xE2, CHR 0x80, CHR 0x83],
      [CHR 0xE2, CHR 0x80, CHR 0x84], [CHR 0xE2, CHR 0x80, CHR 0x85],
      [CHR 0xE2, CHR 0x80, CHR 0x86], [CHR 0xE2, CHR 0x80, CHR 0x87],
      [CHR 0xE2, CHR 0x80, CHR 0x88], [CHR 0xE2, CHR 0x80, CHR 0x89],
      [CHR 0xE2, CHR 0x80, CHR 0x8A], [CHR 0xE2, CHR 0x80, CHR 0xA8],
      [CHR 0xE2, CHR 0x80, CHR 0xA9], [CHR 0xE2, CHR 0x80, CHR 0xAF],
      [CHR 0xE2, CHR 0x81, CHR 0x9F], [CHR 0xE3, CHR 0x80, CHR 0x80]]"

text \<open>\<open>strip_prefixes ws s\<close> removes from the front of \<open>s\<close> every leading member of \<open>ws\<close>.\<close>

function strip_prefixes :: "string list \<Rightarrow> string \<Rightarrow> string" where
  "strip_prefixes ws s =
     (case find (\<lambda>w. w \<noteq> [] \<and> startswith s w) ws of
        None \<Rightarrow> s
      | Some w \<Rightarrow> strip_prefixes ws (drop (length w) s))"
  by pat_completeness auto
termination
proof (relation "measure (\<lambda>(ws, s). length s)")
  show "wf (measure (\<lambda>(ws, s). length s))" by simp
next
  fix ws s w
  assume "find (\<lambda>w. w \<noteq> [] \<and> startswith s w) ws = Some w"
  then have w: "w \<noteq> []" "startswith s w" by (auto simp: find_Some_iff)
  then have "s \<noteq> []" by (cases s; cases w) auto
  with w show "((ws, drop (length w) s), (ws, s)) \<in> measure (\<lambda>(ws, s). length s)"
    by simp
qed

definition strip :: "string \<Rightarrow> string" where
  "strip s = rev (strip_prefixes (map rev whitespace) (rev (strip_prefixes whitespace s)))"

text \<open>\<open>contains p s\<close> is Python's \<open>p in s\<close> on strings.\<close>

fun contains :: "string \<Rightarrow> string \<Rightarrow> bool" where
  "contains p [] = (p = [])"
| "contains p (c # cs) = (startswith (c # cs) p \<or> contains p cs)"

text \<open>\<open>str\<close> of an integer, for the return code in the f-string.\<close>

fun str_nat :: "nat \<Rightarrow> string" where
  "str_nat n =
     (if n < 10 then [''0123456789'' ! n]
      else str_nat (n div 10) @ [''0123456789'' ! (n mod 10)])"

definition str_int :: "int \<Rightarrow> string" where
  "str_int i = (if i < 0 then CHR ''-'' # str_nat (nat (- i)) else str_nat (nat i))"

text \<open>
  The host the agent runs on. The working directory of the process is the mutable part;
  a directory is named by its path. Everything else is what the host answers:
  \<open>os.chdir\<close>, from a working directory and a path, gives the new working directory or
  raises; \<open>os.getcwd\<close> gives the path of the working directory or raises (the directory
  may have been removed); \<open>getpass.getuser\<close> and \<open>socket.gethostname\<close> answer or raise;
  \<open>subprocess.run(command, shell=True, timeout=30, cwd=...)\<close> completes, raises
  \<open>TimeoutExpired\<close> (the 30 seconds have passed) or raises something else. A raised
  exception is given by its \<open>str(e)\<close>. \<open>json_dumps\<close> is \<open>json.dumps(info, indent=2)\<close> on the
  dictionary's items. The \<open>print\<close> calls write the console log and are left out.
\<close>

datatype run_outcome =
    CompletedProcess string string int   \<comment> \<open>stdout, stderr, returncode\<close>
  | TimedOut
  | Raised string

record host =
  os_chdir :: "string \<Rightarrow> string \<Rightarrow> string + string"
  os_getcwd :: "string \<Rightarrow> string + string"
  getuser :: "string + string"
  gethostname :: "string + string"
  platform_system :: string
  platform_release :: string
  platform_architecture :: string
  platform_processor :: string
  platform_python_version :: string
  json_dumps :: "(string \<times> string) list \<Rightarrow> string"
  subprocess_run :: "string \<Rightarrow> string \<Rightarrow> run_outcome"

datatype exn = TimeoutExpired | Exception string

text \<open>What the agent did to its host while it handled a command.\<close>

datatype effect =
    Chdir string           \<comment> \<open>\<open>os.chdir(path)\<close> was called\<close>
  | Shell string string    \<comment> \<open>\<open>subprocess.run\<close> was called with this command and cwd\<close>

definition forbidden_commands :: "string list" where
  "forbidden_commands =
     [''rm -rf'', ''format'', ''del /f'', ''shutdown'', ''reboot'',
      ''mkfs'', ''dd if='', '':(){ :|:& };:'', ''chmod 777 /'']"

definition forbidden_text :: string where
  "forbidden_text =
     cross_mark @ '' Commande interdite pour des raisons de s'' @ e_acute @ ''curit'' @ e_acute"

definition timeout_text :: string where
  "timeout_text =
     cross_mark @ '' Timeout: Commande interrompue apr'' @ e_grave @ ''s 30 secondes''"

definition error_text :: "string \<Rightarrow> string" where
  "error_text msg = cross_mark @ '' Erreur d'' @ [CHR 0x27] @ ''ex'' @ e_acute @ ''cution: '' @ msg"

definition cd_text :: "string \<Rightarrow> string" where
  "cd_text dir = ''R'' @ e_acute @ ''pertoire chang'' @ e_acute @ '' vers: '' @ dir"

definition cd_error_text :: "string \<Rightarrow> string" where
  "cd_error_text msg = ''Erreur cd: '' @ msg"

definition done_text :: "int \<Rightarrow> string" where
  "done_text returncode =
     ''Commande ex'' @ e_acute @ ''cut'' @ e_acute @ ''e (code de retour: ''
     @ str_int returncode @ '')''"

definition raise_of :: "string + string \<Rightarrow> exn + string" where
  "raise_of r = (case r of Inl msg \<Rightarrow> Inl (Exception msg) | Inr v \<Rightarrow> Inr v)"

definition is_forbidden :: "string \<Rightarrow> bool" where
  "is_forbidden command = list_ex (\<lambda>forbidden. contains forbidden (lower command)) forbidden_commands"

text \<open>
  The body of the outer \<open>try\<close> of \<open>execute_command\<close>: the value returned or the exception
  raised, the working directory afterwards, and the effects in order. The \<open>cd\<close> branch has
  its own handler around \<open>os.chdir\<close> and \<open>os.getcwd\<close>, so it never raises. In the last
  branch \<open>cwd=os.getcwd()\<close> is evaluated before \<open>subprocess.run\<close> is called.
\<close>

definition execute_body :: "host \<Rightarrow> string \<Rightarrow> string \<Rightarrow> (exn + string) \<times> string \<times> effect list" where
  "execute_body h wd command =
     (if startswith command ''cd '' then
        (let path = strip (drop 3 command) in
         case os_chdir h wd path of
           Inl msg \<Rightarrow> (Inr (cd_error_text msg), wd, [Chdir path])
         | Inr wd' \<Rightarrow>
            (case os_getcwd h wd' of
               Inl msg \<Rightarrow> (Inr (cd_error_text msg), wd', [Chdir path])
             | Inr dir \<Rightarrow> (Inr (cd_text dir), wd', [Chdir path])))
      else if command \<in> set [''pwd'', ''whoami'', ''hostname''] then
        (if command = ''pwd'' then (raise_of (os_getcwd h wd), wd, [])
         else if command = ''whoami'' then (raise_of (getuser h), wd, [])
         else (raise_of (gethostname h), wd, []))
      else if command = ''sysinfo'' then
        (case gethostname h of
           Inl msg \<Rightarrow> (Inl (Exception msg), wd, [])
         | Inr hn \<Rightarrow>
            (case getuser h of
               Inl msg \<Rightarrow> (Inl (Exception msg), wd, [])
             | Inr un \<Rightarrow>
                (Inr (json_dumps h
                   [(''hostname'', hn), (''username'', un),
                    (''os'', platform_system h), (''release'', platform_release h),
                    (''architecture'', platform_architecture h),
                    (''processor'', platform_processor h),
                    (''python_version'', platform_python_version h)]),
                 wd, [])))
      else if is_forbidden command then (Inr forbidden_text, wd, [])
      else
        (case os_getcwd h wd of
           Inl msg \<Rightarrow> (Inl (Exception msg), wd, [])
         | Inr dir \<Rightarrow>
            (case subprocess_run h command dir of
               TimedOut \<Rightarrow> (Inl TimeoutExpired, wd, [Shell command dir])
             | Raised msg \<Rightarrow> (Inl (Exception msg), wd, [Shell command dir])
             | CompletedProcess out err returncode \<Rightarrow>
                 (let output = (if err \<noteq> [] then out @ [CHR 0x0A] @ ''STDERR: '' @ err else out)
                  in (Inr (if output \<noteq> [] then output else done_text returncode),
                      wd, [Shell command dir])))))"

text \<open>
  \<open>execute_command\<close> with its two handlers: \<open>except subprocess.TimeoutExpired\<close> first, then
  \<open>except Exception\<close>. The result is \<open>Inl\<close> only if an exception leaves the method.
\<close>

definition execute_command :: "host \<Rightarrow> string \<Rightarrow> string \<Rightarrow> (exn + string) \<times> string \<times> effect list" where
  "execute_command h wd command =
     (case execute_body h wd command of
        (Inr v, wd', effects) \<Rightarrow> (Inr v, wd', effects)
      | (Inl TimeoutExpired, wd', effects) \<Rightarrow> (Inr timeout_text, wd', effects)
      | (Inl (Exception msg), wd', effects) \<Rightarrow> (Inr (error_text msg), wd', effects))"

text \<open>The commands that reach the last branch, the one that runs the shell.\<close>

definition is_generic :: "string \<Rightarrow> bool" where
  "is_generic command \<longleftrightarrow>
     \<not> startswith command ''cd '' \<and>
     command \<notin> set [''pwd'', ''whoami'', ''hostname'', ''sysinfo''] \<and>
     \<not> is_forbidden command"

definition is_shell :: "effect \<Rightarrow> bool" where
  "is_shell e = (case e of Shell c d \<Rightarrow> True | Chdir p \<Rightarrow> False)"

section \<open>A small deployment, for concrete runs\<close>

text \<open>
  One agent \<open>agent-1\<close>, registered at time 1, and at most one command \<open>whoami\<close>, enqueued
  at time 2. The parameters are the parts that the runs below change.
\<close>

definition demo_request :: agent_request where
  "demo_request =
     \<lparr>req_hostname = Some ''lab-host'', req_username = Some ''tester'',
      req_os_info = Some ''Linux 6.1'', req_ip_address = None,
      req_capabilities = Some [''command_execution'']\<rparr>"

definition demo_agent :: "nat \<Rightarrow> agent" where
  "demo_agent seen =
     \<lparr>ag_id = ''agent-1'', ag_hostname = ''lab-host'', ag_username = ''tester'',
      ag_os_info = ''Linux 6.1'', ag_ip_address = ''10.0.0.5'',
      ag_first_seen = 1, ag_last_seen = seen, ag_status = Active,
      ag_encryption_key = ''a2V5LTE='', ag_capabilities = [''command_execution'']\<rparr>"

definition demo_command :: "cmd_status \<Rightarrow> nat option \<Rightarrow> string option \<Rightarrow> command" where
  "demo_command s e r =
     \<lparr>cmd_id = 1, cmd_agent_id = ''agent-1'', cmd_command = ''whoami'',
      cmd_status = s, cmd_created_at = 2, cmd_executed_at = e, cmd_result = r\<rparr>"

definition demo_state ::
  "nat \<Rightarrow> command list \<Rightarrow> (string \<times> string) list \<Rightarrow> activity list \<Rightarrow> c2_state" where
  "demo_state seen cs conn logs =
     \<lparr>agents = [demo_agent seen], commands = cs, command_seq = length cs,
      connected_agents = conn, activity_logs = AgentRegistered ''agent-1'' # logs\<rparr>"

text \<open>
  A host on which every directory change fails and every shell command times out, and the
  same host when its name cannot be read.
\<close>

definition demo_host :: host where
  "demo_host =
     \<lparr>os_chdir = (\<lambda>wd path. Inl ''No such file or directory''),
      os_getcwd = (\<lambda>wd. Inr wd),
      getuser = Inr ''tester'', gethostname = Inr ''lab-host'',
      platform_system = ''Linux'', platform_release = ''6.1'',
      platform_architecture = ''64bit'', platform_processor = ''x86_64'',
      platform_python_version = ''3.11'',
      json_dumps = (\<lambda>items. concat (map (\<lambda>p. fst p @ ''='' @ snd p @ '';'') items)),
      subprocess_run = (\<lambda>command dir. TimedOut)\<rparr>"

definition nameless_host :: host where
  "nameless_host = demo_host\<lparr>gethostname := Inl ''host name lookup failure''\<rparr>"

section \<open>Effect of each handler on the tables\<close>



lemma log_activity_simps [simp]:
  "agents (log_activity e st) = agents st"
  "commands (log_activity e st) = commands st"
  "command_seq (log_activity e st) = command_seq st"
  "connected_agents (log_activity e st) = connected_agents st"
  by (simp_all add: log_activity_def)

lemma agent_ids_log [simp]: "agent_ids (log_activity e st) = agent_ids st"
  by (simp add: agent_ids_def)

lemma fold_log_simps [simp]:
  "agents (fold (\<lambda>p. log_activity (f p)) ps st) = agents st"
  "commands (fold (\<lambda>p. log_activity (f p)) ps st) = commands st"
  "command_seq (fold (\<lambda>p. log_activity (f p)) ps st) = command_seq st"
  by (induction ps arbitrary: st) simp_all

lemma register_agent_effect:
  assumes "register_agent data addr u k now st = Inr (st', r)"
  shows "commands st' = commands st" "command_seq st' = command_seq st"
    "u \<notin> set (agent_ids st)" "agent_ids st' = agent_ids st @ [u]"
  using assms by (auto simp: register_agent_def Let_def agent_ids_def split: if_splits)

lemma add_agent_manually_effect:
  assumes "add_agent_manually data u k now st = Inr (st', r)"
  shows "commands st' = commands st" "command_seq st' = command_seq st"
    "u \<notin> set (agent_ids st)" "agent_ids st' = agent_ids st @ [u]"
  using assms by (auto simp: add_agent_manually_def Let_def agent_ids_def split: if_splits)

lemma delete_agent_effect:
  assumes "delete_agent a st = Inr (st', r)"
  shows "commands st' = filter (\<lambda>c. cmd_agent_id c \<noteq> a) (commands st)"
    "command_seq st' = command_seq st"
    "agents st' = filter (\<lambda>x. ag_id x \<noteq> a) (agents st)"
  using assms by (auto simp: delete_agent_def Let_def split: option.splits)

lemma find_None_ids: "find (\<lambda>a. ag_id a = x) (agents st) = None \<longleftrightarrow> x \<notin> set (agent_ids st)"
  by (auto simp: find_None_iff agent_ids_def)

lemma send_command_effect:
  assumes "send_command a c now st = Inr (st', cid, ev)"
  shows "cid = Suc (command_seq st)" "command_seq st' = cid" "agents st' = agents st"
    "a \<in> set (agent_ids st)" "\<not> is_falsy c"
    "commands st' = commands st @
       [\<lparr>cmd_id = cid, cmd_agent_id = a, cmd_command = get_default c [],
         cmd_status = Pending, cmd_created_at = now, cmd_executed_at = None,
         cmd_result = None\<rparr>]"
  using assms by (auto simp: send_command_def Let_def find_None_ids split: if_splits)

lemma ag_id_touch [simp]: "ag_id (touch a now x) = ag_id x"
  by (simp add: touch_def)

lemma agent_checkin_effect:
  assumes "agent_checkin a now st = Inr (st', r)"
  shows "commands st' = commands st" "command_seq st' = command_seq st"
    "agent_ids st' = agent_ids st" "connected_agents st' = connected_agents st"
  using assms by (auto simp: agent_checkin_def Let_def agent_ids_def)

lemma complete_fields [simp]:
  "cmd_id (complete a cid res now c) = cmd_id c"
  "cmd_agent_id (complete a cid res now c) = cmd_agent_id c"
  "cmd_command (complete a cid res now c) = cmd_command c"
  "cmd_created_at (complete a cid res now c) = cmd_created_at c"
  by (simp_all add: complete_def)

lemma submit_result_effect:
  assumes "submit_result a cid res now st = Inr (st', r)"
  shows "commands st' = map (complete a cid res now) (commands st)"
    "command_seq st' = command_seq st" "agents st' = agents st"
  using assms by (auto simp: submit_result_def Let_def split: if_splits)

lemma handle_join_agent_effect:
  assumes "handle_join_agent ao sid st = (st', ev)"
  shows "commands st' = commands st" "command_seq st' = command_seq st" "agents st' = agents st"
  using assms by (auto simp: handle_join_agent_def Let_def split: if_splits)

lemma handle_disconnect_effect:
  shows "commands (handle_disconnect sid st) = commands st"
    "command_seq (handle_disconnect sid st) = command_seq st"
    "agents (handle_disconnect sid st) = agents st"
  by (simp_all add: handle_disconnect_def Let_def)

lemma ledger_inv_init: "ledger_inv init_database"
  by (simp add: ledger_inv_def init_database_def agent_ids_def)

lemma reachable_ledger_inv: "reachable st \<Longrightarrow> ledger_inv st"
proof (induction rule: reachable.induct)
  case r_init
  show ?case by (rule ledger_inv_init)
next
  case (r_register st data addr u k now st' r)
  from register_agent_effect[OF r_register.hyps(2)] r_register.IH
  show ?case by (auto simp: ledger_inv_def)
next
  case (r_add st data u k now st' r)
  from add_agent_manually_effect[OF r_add.hyps(2)] r_add.IH
  show ?case by (auto simp: ledger_inv_def)
next
  case (r_delete st a st' r)
  from delete_agent_effect[OF r_delete.hyps(2)] r_delete.IH
  show ?case
    by (auto simp: ledger_inv_def agent_ids_def distinct_map_filter)
next
  case (r_send st a c now st' r)
  obtain cid ev where r: "r = (cid, ev)" by (cases r)
  from send_command_effect[OF r_send.hyps(2)[unfolded r]] r_send.IH
  show ?case by (fastforce simp: ledger_inv_def agent_ids_def)
next
  case (r_checkin st a now st' r)
  from agent_checkin_effect[OF r_checkin.hyps(2)] r_checkin.IH
  show ?case by (auto simp: ledger_inv_def)
next
  case (r_result st a cid res now st' r)
  from submit_result_effect[OF r_result.hyps(2)] r_result.IH
  show ?case by (auto simp: ledger_inv_def agent_ids_def comp_def)
next
  case (r_join st ao sid st' ev)
  from handle_join_agent_effect[OF r_join.hyps(2)] r_join.IH
  show ?case by (auto simp: ledger_inv_def agent_ids_def)
next
  case (r_disconnect st sid)
  then show ?case by (auto simp: ledger_inv_def agent_ids_def handle_disconnect_effect)
qed



section \<open>The concrete deployment is reachable\<close>

lemmas demo_defs = demo_state_def demo_agent_def demo_command_def demo_request_def

lemmas b64_defs = b64encode_def bits_of_char_def bits_value_def b64_alphabet_def

lemma b64encode_demo_key: "b64encode ''key-1'' = ''a2V5LTE=''"
  by (simp add: b64_defs)

lemma binds_small [simp]: "binds (Some 1)" "binds (Some 7)" "binds None"
  by (simp_all add: binds_def sqlite_integer_def)

lemma reachable_demo_registered: "reachable (demo_state 1 [] [] [])"
proof -
  have "register_agent demo_request ''10.0.0.5'' ''agent-1'' ''key-1'' 1 init_database
        = Inr (demo_state 1 [] [] [], ''agent-1'', ''a2V5LTE='')"
    by (simp add: register_agent_def init_database_def demo_defs agent_ids_def
        get_default_def log_activity_def b64encode_demo_key)
  with r_init show ?thesis by (rule r_register)
qed

lemma reachable_demo_enqueued:
  "reachable (demo_state 1 [demo_command Pending None None] [] [CommandSent ''agent-1'' 1])"
proof -
  have "send_command ''agent-1'' (Some ''whoami'') 2 (demo_state 1 [] [] [])
        = Inr (demo_state 1 [demo_command Pending None None] [] [CommandSent ''agent-1'' 1], 1, [])"
    by (simp add: send_command_def demo_defs is_falsy_def get_default_def log_activity_def)
  with reachable_demo_registered show ?thesis by (rule r_send)
qed

lemma reachable_demo_completed:
  "reachable (demo_state 1 [demo_command Completed (Some 3) (Some ''root'')] []
                [CommandSent ''agent-1'' 1, ResultReceived ''agent-1''])"
proof -
  have "submit_result ''agent-1'' (Some 1) (Some ''root'') 3
          (demo_state 1 [demo_command Pending None None] [] [CommandSent ''agent-1'' 1])
        = Inr (demo_state 1 [demo_command Completed (Some 3) (Some ''root'')] []
                [CommandSent ''agent-1'' 1, ResultReceived ''agent-1''],
               [CommandResult ''agent-1'' (Some 1) (Some ''root'')])"
    by (simp add: submit_result_def demo_defs complete_def log_activity_def)
  with reachable_demo_enqueued show ?thesis by (rule r_result)
qed

lemma reachable_demo_online: "reachable (demo_state 1 [] [(''agent-1'', ''sid-1'')] [])"
proof -
  have "handle_join_agent (Some ''agent-1'') ''sid-1'' (demo_state 1 [] [] [])
        = (demo_state 1 [] [(''agent-1'', ''sid-1'')] [], [AgentOnline ''agent-1''])"
    by (simp add: handle_join_agent_def demo_defs is_falsy_def get_default_def Let_def)
  with reachable_demo_registered show ?thesis by (rule r_join)
qed

lemma pending_commands_checkin:
  "pending_commands A (st\<lparr>agents := ags\<rparr>) = pending_commands A st"
  by (simp add: pending_commands_def)


section \<open>Check-in (claim C1)\<close>

text \<open>
  C1, as amended. For every agent id A, a check-in of A always answers, with exactly the
  (id, command) pairs of the stored commands owned by A whose status is pending, in
  ascending order of creation time. It changes no command (no status, no timestamp);
  consequently a second check-in of A issued afterwards, with nothing in between, returns
  the same sequence again.
\<close>

theorem agent_checkin_returns_pending:
  "\<exists>st' ps.
     agent_checkin A now st = Inr (st', map (\<lambda>c. (cmd_id c, cmd_command c)) ps) \<and>
     mset ps = mset (filter (\<lambda>c. cmd_agent_id c = A \<and> cmd_status c = Pending) (commands st)) \<and>
     sorted (map cmd_created_at ps) \<and>
     commands st' = commands st \<and>
     (\<forall>now'. \<exists>st''. agent_checkin A now' st'
                       = Inr (st'', map (\<lambda>c. (cmd_id c, cmd_command c)) ps))"
proof -
  let ?st' = "st\<lparr>agents := map (touch A now) (agents st)\<rparr>"
  let ?ps = "pending_commands A st"
  have "agent_checkin A now st = Inr (?st', map (\<lambda>c. (cmd_id c, cmd_command c)) ?ps)"
    by (simp add: agent_checkin_def pending_commands_checkin)
  moreover have "mset ?ps
      = mset (filter (\<lambda>c. cmd_agent_id c = A \<and> cmd_status c = Pending) (commands st))"
    by (simp add: pending_commands_def)
  moreover have "sorted (map cmd_created_at ?ps)"
    by (simp add: pending_commands_def)
  moreover have "commands ?st' = commands st" by simp
  moreover have "\<exists>st''. agent_checkin A now' ?st'
      = Inr (st'', map (\<lambda>c. (cmd_id c, cmd_command c)) ?ps)" for now'
    by (simp add: agent_checkin_def pending_commands_checkin)
  ultimately show ?thesis by blast
qed

theorem agent_checkin_returns_pending_witness:
  "\<exists>st' ps.
     agent_checkin ''agent-1'' 3
       (demo_state 1 [demo_command Pending None None] [] [CommandSent ''agent-1'' 1])
     = Inr (st', map (\<lambda>c. (cmd_id c, cmd_command c)) ps) \<and>
     mset ps = {#demo_command Pending None None#} \<and>
     commands st' = [demo_command Pending None None]"
  using agent_checkin_returns_pending [of "''agent-1''" 3
      "demo_state 1 [demo_command Pending None None] [] [CommandSent ''agent-1'' 1]"]
  by (simp add: demo_defs) blast


text \<open>
  C1 as stated fails: in the reachable state where \<open>agent-1\<close> has the one pending command
  \<open>whoami\<close>, the check-in returns it and leaves it pending (only the agent's last-seen time
  changes), and the second check-in returns it again instead of the empty sequence.
\<close>

theorem claim_pending_counterexample:
  "reachable (demo_state 1 [demo_command Pending None None] [] [CommandSent ''agent-1'' 1]) \<and>
   agent_checkin ''agent-1'' 3
     (demo_state 1 [demo_command Pending None None] [] [CommandSent ''agent-1'' 1])
   = Inr (demo_state 3 [demo_command Pending None None] [] [CommandSent ''agent-1'' 1],
          [(1, ''whoami'')]) \<and>
   agent_checkin ''agent-1'' 4
     (demo_state 3 [demo_command Pending None None] [] [CommandSent ''agent-1'' 1])
   = Inr (demo_state 4 [demo_command Pending None None] [] [CommandSent ''agent-1'' 1],
          [(1, ''whoami'')])"
  using reachable_demo_enqueued
  by (simp add: agent_checkin_def pending_commands_def demo_defs touch_def)



section \<open>Push delivery and polling (claim C3)\<close>

lemma pending_commands_set:
  "set (pending_commands A st) = {c \<in> set (commands st). cmd_agent_id c = A \<and> cmd_status c = Pending}"
  by (auto simp: pending_commands_def)

text \<open>
  C3, as amended. When \<open>send_command\<close> pushes a command to an agent that holds a live
  channel, it emits \<open>new_command\<close> for it and stores it with status pending, exactly as for
  an agent without a channel: no transition to SENT takes place. The agent's poll issued
  next, with nothing in between and at whatever time, therefore returns the pushed
  command again.
\<close>

theorem push_leaves_command_pending:
  assumes "send_command A (Some t) now st = Inr (st1, cid, ev)"
    and "A \<in> set (map fst (connected_agents st))"
  shows "ev = [NewCommand A cid t] \<and>
         (\<exists>c \<in> set (commands st1). cmd_id c = cid \<and> cmd_agent_id c = A \<and> cmd_status c = Pending) \<and>
         (\<forall>now'. \<exists>st2 cs. agent_checkin A now' st1 = Inr (st2, cs) \<and> (cid, t) \<in> set cs)"
proof -
  let ?row = "\<lparr>cmd_id = cid, cmd_agent_id = A, cmd_command = t,
         cmd_status = Pending, cmd_created_at = now, cmd_executed_at = None,
         cmd_result = None\<rparr>"
  from send_command_effect[OF assms(1)]
  have cs: "commands st1 = commands st @ [?row]" by (simp add: get_default_def)
  have ev: "ev = [NewCommand A cid t]"
    using assms by (auto simp: send_command_def Let_def get_default_def split: if_splits)
  have row: "?row \<in> set (commands st1)" using cs by simp
  have "?row \<in> set (pending_commands A (st1\<lparr>agents := ags\<rparr>))" for ags
    using row by (simp add: pending_commands_set)
  then have "(cid, t) \<in> set (map (\<lambda>c. (cmd_id c, cmd_command c)) (pending_commands A (st1\<lparr>agents := ags\<rparr>)))" for ags
    by force
  then have "\<exists>st2 cs. agent_checkin A now' st1 = Inr (st2, cs) \<and> (cid, t) \<in> set cs" for now'
    by (simp add: agent_checkin_def Let_def)
  moreover have "\<exists>c \<in> set (commands st1). cmd_id c = cid \<and> cmd_agent_id c = A \<and> cmd_status c = Pending"
    using row by (intro bexI[of _ ?row]) simp_all
  ultimately show ?thesis using ev by blast
qed

theorem push_leaves_command_pending_witness:
  "send_command ''agent-1'' (Some ''whoami'') 2 (demo_state 1 [] [(''agent-1'', ''sid-1'')] [])
     = Inr (demo_state 1 [demo_command Pending None None] [(''agent-1'', ''sid-1'')]
              [CommandSent ''agent-1'' 1], 1, [NewCommand ''agent-1'' 1 ''whoami'']) \<and>
   ''agent-1'' \<in> set (map fst (connected_agents (demo_state 1 [] [(''agent-1'', ''sid-1'')] []))) \<and>
   (\<exists>st2 cs. agent_checkin ''agent-1'' 3
        (demo_state 1 [demo_command Pending None None] [(''agent-1'', ''sid-1'')]
              [CommandSent ''agent-1'' 1]) = Inr (st2, cs) \<and> (1, ''whoami'') \<in> set cs)"
proof -
  have s: "send_command ''agent-1'' (Some ''whoami'') 2 (demo_state 1 [] [(''agent-1'', ''sid-1'')] [])
     = Inr (demo_state 1 [demo_command Pending None None] [(''agent-1'', ''sid-1'')]
              [CommandSent ''agent-1'' 1], 1, [NewCommand ''agent-1'' 1 ''whoami''])"
    by (simp add: send_command_def demo_defs is_falsy_def get_default_def log_activity_def
        Let_def)
  have c: "''agent-1'' \<in> set (map fst (connected_agents (demo_state 1 [] [(''agent-1'', ''sid-1'')] [])))"
    by (simp add: demo_state_def)
  from push_leaves_command_pending [OF s c] s c show ?thesis by blast
qed

text \<open>
  C3 as stated fails: with \<open>agent-1\<close> connected, \<open>whoami\<close> is pushed as command 1 and the
  agent's next poll hands command 1 over a second time.
\<close>

theorem push_then_poll_counterexample:
  "reachable (demo_state 1 [] [(''agent-1'', ''sid-1'')] []) \<and>
   send_command ''agent-1'' (Some ''whoami'') 2 (demo_state 1 [] [(''agent-1'', ''sid-1'')] [])
     = Inr (demo_state 1 [demo_command Pending None None] [(''agent-1'', ''sid-1'')]
              [CommandSent ''agent-1'' 1], 1, [NewCommand ''agent-1'' 1 ''whoami'']) \<and>
   agent_checkin ''agent-1'' 3
     (demo_state 1 [demo_command Pending None None] [(''agent-1'', ''sid-1'')]
        [CommandSent ''agent-1'' 1])
     = Inr (demo_state 3 [demo_command Pending None None] [(''agent-1'', ''sid-1'')]
              [CommandSent ''agent-1'' 1], [(1, ''whoami'')])"
  using reachable_demo_online
  by (simp add: send_command_def agent_checkin_def pending_commands_def touch_def demo_defs
      is_falsy_def get_default_def log_activity_def Let_def)

section \<open>Deletion (claim C8)\<close>

lemma find_Some_ids: "x \<in> set (agent_ids st) \<Longrightarrow> \<exists>a. find (\<lambda>a. ag_id a = x) (agents st) = Some a"
  using find_None_ids[of x st] by (cases "find (\<lambda>a. ag_id a = x) (agents st)") auto

text \<open>
  C8. \<open>delete_agent\<close> answers NotFound (404) when no agent has the id; otherwise it
  succeeds, and afterwards neither the agent nor any command owned by it is stored, while
  every other agent and command still is.
\<close>

theorem delete_agent_cascades:
  "(A \<notin> set (agent_ids st) \<longrightarrow> delete_agent A st = Inl AgentNotFound) \<and>
   (A \<in> set (agent_ids st) \<longrightarrow>
      (\<exists>st'. delete_agent A st = Inr (st', ()) \<and>
         A \<notin> set (agent_ids st') \<and>
         (\<forall>c \<in> set (commands st'). cmd_agent_id c \<noteq> A) \<and>
         set (agents st') = {a \<in> set (agents st). ag_id a \<noteq> A} \<and>
         set (commands st') = {c \<in> set (commands st). cmd_agent_id c \<noteq> A}))"
proof (intro conjI impI)
  assume "A \<notin> set (agent_ids st)"
  then show "delete_agent A st = Inl AgentNotFound"
    by (simp add: delete_agent_def find_None_ids[symmetric])
next
  assume "A \<in> set (agent_ids st)"
  then obtain a where "find (\<lambda>a. ag_id a = A) (agents st) = Some a"
    using find_Some_ids by blast
  then show "\<exists>st'. delete_agent A st = Inr (st', ()) \<and>
         A \<notin> set (agent_ids st') \<and>
         (\<forall>c \<in> set (commands st'). cmd_agent_id c \<noteq> A) \<and>
         set (agents st') = {a \<in> set (agents st). ag_id a \<noteq> A} \<and>
         set (commands st') = {c \<in> set (commands st). cmd_agent_id c \<noteq> A}"
    by (auto simp: delete_agent_def Let_def agent_ids_def)
qed

theorem delete_agent_cascades_witness:
  "delete_agent ''nobody'' (demo_state 1 [demo_command Pending None None] [] [CommandSent ''agent-1'' 1])
     = Inl AgentNotFound \<and>
   ''agent-1'' \<in> set (agent_ids (demo_state 1 [demo_command Pending None None] [] [CommandSent ''agent-1'' 1])) \<and>
   (\<exists>st'. delete_agent ''agent-1'' (demo_state 1 [demo_command Pending None None] [] [CommandSent ''agent-1'' 1])
      = Inr (st', ()) \<and> agents st' = [] \<and> commands st' = [])"
proof -
  let ?st = "demo_state 1 [demo_command Pending None None] [] [CommandSent ''agent-1'' 1]"
  have n: "''nobody'' \<notin> set (agent_ids ?st)" and y: "''agent-1'' \<in> set (agent_ids ?st)"
    by (simp_all add: agent_ids_def demo_defs)
  from delete_agent_cascades [of "''nobody''" ?st] n
  have 1: "delete_agent ''nobody'' ?st = Inl AgentNotFound" by blast
  from delete_agent_cascades [of "''agent-1''" ?st] y
  obtain st' where d: "delete_agent ''agent-1'' ?st = Inr (st', ())"
    and a: "set (agents st') = {a \<in> set (agents ?st). ag_id a \<noteq> ''agent-1''}"
    and c: "set (commands st') = {c \<in> set (commands ?st). cmd_agent_id c \<noteq> ''agent-1''}"
    by blast
  have "{a \<in> set (agents ?st). ag_id a \<noteq> ''agent-1''} = {}"
    by (simp add: demo_defs)
  with a have "set (agents st') = {}" by (rule trans)
  then have "agents st' = []" by (simp only: set_empty)
  moreover have "{c \<in> set (commands ?st). cmd_agent_id c \<noteq> ''agent-1''} = {}"
    by (simp add: demo_defs)
  with c have "set (commands st') = {}" by (rule trans)
  then have "commands st' = []" by (simp only: set_empty)
  ultimately show ?thesis using 1 y d by blast
qed

section \<open>Enqueue (claim C9)\<close>

text \<open>
  C9, as amended. In every reachable state: a command text that is absent or empty is
  answered with 400 (command required) before the agent is looked up, and nothing is
  stored; for a non-empty text t, \<open>send_command\<close> answers 404 (agent not found) when no
  agent has the id A, and otherwise appends exactly one command, owned by A, with text t,
  status pending and an id that no stored command has, returns that id, and leaves the
  earlier commands and the agents as they were.
\<close>

theorem send_command_inserts_pending:
  assumes "reachable st"
  shows "(is_falsy c \<longrightarrow> send_command A c now st = Inl CommandRequired) \<and>
         (t \<noteq> [] \<and> A \<notin> set (agent_ids st) \<longrightarrow>
            send_command A (Some t) now st = Inl AgentNotFound) \<and>
         (t \<noteq> [] \<and> A \<in> set (agent_ids st) \<longrightarrow>
            (\<exists>st' cid ev row.
               send_command A (Some t) now st = Inr (st', cid, ev) \<and>
               commands st' = commands st @ [row] \<and>
               cmd_id row = cid \<and> cmd_agent_id row = A \<and> cmd_command row = t \<and>
               cmd_status row = Pending \<and>
               cid \<notin> set (map cmd_id (commands st)) \<and>
               agents st' = agents st))"
proof (intro conjI impI)
  assume "is_falsy c"
  then show "send_command A c now st = Inl CommandRequired"
    by (simp add: send_command_def)
next
  assume "t \<noteq> [] \<and> A \<notin> set (agent_ids st)"
  then show "send_command A (Some t) now st = Inl AgentNotFound"
    by (simp add: send_command_def is_falsy_def find_None_ids)
next
  assume h: "t \<noteq> [] \<and> A \<in> set (agent_ids st)"
  from reachable_ledger_inv[OF assms]
  have "\<forall>c \<in> set (commands st). cmd_id c \<le> command_seq st"
    by (simp add: ledger_inv_def)
  then have fresh: "Suc (command_seq st) \<notin> set (map cmd_id (commands st))"
    by auto
  from h have nf: "find (\<lambda>a. ag_id a = A) (agents st) \<noteq> None"
    by (simp add: find_None_ids)
  show "\<exists>st' cid ev row.
               send_command A (Some t) now st = Inr (st', cid, ev) \<and>
               commands st' = commands st @ [row] \<and>
               cmd_id row = cid \<and> cmd_agent_id row = A \<and> cmd_command row = t \<and>
               cmd_status row = Pending \<and>
               cid \<notin> set (map cmd_id (commands st)) \<and>
               agents st' = agents st"
    using h nf fresh
    by (simp add: send_command_def is_falsy_def Let_def get_default_def)
qed

theorem send_command_inserts_pending_witness:
  "reachable (demo_state 1 [] [] []) \<and>
   is_falsy (Some '''') \<and>
   send_command ''agent-1'' (Some '''') 2 (demo_state 1 [] [] []) = Inl CommandRequired \<and>
   ''nobody'' \<notin> set (agent_ids (demo_state 1 [] [] [])) \<and>
   send_command ''nobody'' (Some ''whoami'') 2 (demo_state 1 [] [] []) = Inl AgentNotFound \<and>
   ''agent-1'' \<in> set (agent_ids (demo_state 1 [] [] [])) \<and>
   (\<exists>st' cid ev row.
      send_command ''agent-1'' (Some ''whoami'') 2 (demo_state 1 [] [] []) = Inr (st', cid, ev) \<and>
      commands st' = [row] \<and> cmd_id row = cid \<and> cmd_status row = Pending)"
proof -
  let ?st = "demo_state 1 [] [] []"
  note r = reachable_demo_registered
  have f: "is_falsy (Some '''')" by (simp add: is_falsy_def)
  have n: "''nobody'' \<notin> set (agent_ids ?st)" and y: "''agent-1'' \<in> set (agent_ids ?st)"
    by (simp_all add: agent_ids_def demo_defs)
  have w: "''whoami'' \<noteq> []" by simp
  from send_command_inserts_pending [OF r, of "Some ''''" "''agent-1''" 2] f
  have 1: "send_command ''agent-1'' (Some '''') 2 ?st = Inl CommandRequired" by blast
  from send_command_inserts_pending [OF r, where t = "''whoami''" and A = "''nobody''" and now = 2] n w
  have 2: "send_command ''nobody'' (Some ''whoami'') 2 ?st = Inl AgentNotFound" by blast
  from send_command_inserts_pending [OF r, where t = "''whoami''" and A = "''agent-1''" and now = 2] y w
  obtain st' cid ev row where
    "send_command ''agent-1'' (Some ''whoami'') 2 ?st = Inr (st', cid, ev)"
    "commands st' = commands ?st @ [row]" "cmd_id row = cid" "cmd_status row = Pending"
    by blast
  moreover have "commands ?st = []" by (simp add: demo_state_def)
  ultimately have 3: "\<exists>st' cid ev row.
      send_command ''agent-1'' (Some ''whoami'') 2 ?st = Inr (st', cid, ev) \<and>
      commands st' = [row] \<and> cmd_id row = cid \<and> cmd_status row = Pending"
    by (metis append_Nil)
  from r f 1 n 2 y 3 show ?thesis by blast
qed

text \<open>
  C9 as stated fails for the empty command text: for the existing agent \<open>agent-1\<close> nothing
  is inserted and the answer is an error, and for an agent that does not exist the answer
  is 'command required', not 'agent not found'.
\<close>

theorem enqueue_empty_text_counterexample:
  "reachable (demo_state 1 [] [] []) \<and>
   ''agent-1'' \<in> set (agent_ids (demo_state 1 [] [] [])) \<and>
   send_command ''agent-1'' (Some '''') 2 (demo_state 1 [] [] []) = Inl CommandRequired \<and>
   ''nobody'' \<notin> set (agent_ids (demo_state 1 [] [] [])) \<and>
   send_command ''nobody'' (Some '''') 2 (demo_state 1 [] [] []) = Inl CommandRequired \<and>
   CommandRequired \<noteq> AgentNotFound"
  using reachable_demo_registered
  by (simp add: send_command_def is_falsy_def agent_ids_def demo_defs)

section \<open>The statuses in use (claim C10)\<close>

text \<open>
  C10. In every reachable state of the controller, every stored command has status
  pending or completed: no handler writes 'sent' or 'failed'.
\<close>

theorem reachable_status_pending_or_completed:
  assumes "reachable st"
  shows "\<forall>c \<in> set (commands st). cmd_status c = Pending \<or> cmd_status c = Completed"
  using assms
proof (induction rule: reachable.induct)
  case r_init
  show ?case by (simp add: init_database_def)
next
  case (r_register st data addr u k now st' r)
  from register_agent_effect(1)[OF r_register.hyps(2)] r_register.IH
  show ?case by simp
next
  case (r_add st data u k now st' r)
  from add_agent_manually_effect(1)[OF r_add.hyps(2)] r_add.IH
  show ?case by simp
next
  case (r_delete st a st' r)
  from delete_agent_effect(1)[OF r_delete.hyps(2)] r_delete.IH
  show ?case by simp
next
  case (r_send st a c now st' r)
  obtain cid ev where r: "r = (cid, ev)" by (cases r)
  from send_command_effect(6)[OF r_send.hyps(2)[unfolded r]] r_send.IH
  show ?case by auto
next
  case (r_checkin st a now st' r)
  from agent_checkin_effect(1)[OF r_checkin.hyps(2)] r_checkin.IH
  show ?case by simp
next
  case (r_result st a cid res now st' r)
  from submit_result_effect(1)[OF r_result.hyps(2)] r_result.IH
  show ?case by (auto simp: complete_def)
next
  case (r_join st ao sid st' ev)
  from handle_join_agent_effect(1)[OF r_join.hyps(2)] r_join.IH
  show ?case by simp
next
  case (r_disconnect st sid)
  then show ?case by (simp add: handle_disconnect_effect)
qed

theorem reachable_status_pending_or_completed_witness:
  "reachable (demo_state 1 [demo_command Completed (Some 3) (Some ''root'')] []
                [CommandSent ''agent-1'' 1, ResultReceived ''agent-1'']) \<and>
   cmd_status (demo_command Completed (Some 3) (Some ''root'')) = Completed \<and>
   cmd_status (demo_command Completed (Some 3) (Some ''root'')) \<noteq> Sent \<and>
   cmd_status (demo_command Completed (Some 3) (Some ''root'')) \<noteq> Failed"
  using reachable_status_pending_or_completed [OF reachable_demo_completed]
    reachable_demo_completed
  by (simp add: demo_defs)

section \<open>Monotone statuses (claim C4)\<close>

lemma ledger_step_reachable: "reachable st \<Longrightarrow> ledger_step st st' \<Longrightarrow> reachable st'"
  by (auto elim!: ledger_step.cases intro: r_send r_checkin r_result)

lemma ledger_steps_reachable: "ledger_step\<^sup>*\<^sup>* st st' \<Longrightarrow> reachable st \<Longrightarrow> reachable st'"
  by (induction rule: rtranclp_induct) (auto intro: ledger_step_reachable)

lemma advances_refl: "advances c c"
  by (simp add: advances_def)

lemma advances_trans: "advances a b \<Longrightarrow> advances b c \<Longrightarrow> advances a c"
  by (auto simp: advances_def)

lemma advances_complete: "advances c (complete a cid res now c)"
  by (cases "cmd_status c") (simp_all add: advances_def complete_def)

lemma ledger_step_advances:
  assumes "ledger_step st st'" and "c \<in> set (commands st)"
  shows "\<exists>c' \<in> set (commands st'). advances c c'"
  using assms(1)
proof (cases rule: ledger_step.cases)
  case (l_enqueue a cmd now r)
  obtain cid ev where r: "r = (cid, ev)" by (cases r)
  from send_command_effect(6)[OF l_enqueue[unfolded r]] assms(2)
  have "c \<in> set (commands st')" by simp
  then show ?thesis using advances_refl by blast
next
  case (l_claim a now r)
  from agent_checkin_effect(1)[OF l_claim] assms(2)
  have "c \<in> set (commands st')" by simp
  then show ?thesis using advances_refl by blast
next
  case (l_ingest a cid res now r)
  from submit_result_effect(1)[OF l_ingest] assms(2)
  have "complete a cid res now c \<in> set (commands st')" by simp
  then show ?thesis using advances_complete by blast
qed

lemma ledger_steps_advances:
  assumes "ledger_step\<^sup>*\<^sup>* st st'"
  shows "c \<in> set (commands st) \<Longrightarrow> \<exists>c' \<in> set (commands st'). advances c c'"
  using assms
proof (induction rule: rtranclp_induct)
  case base
  then show ?case using advances_refl by blast
next
  case (step y z)
  then obtain c1 where c1: "c1 \<in> set (commands y)" "advances c c1" by blast
  from ledger_step_advances[OF step.hyps(2) c1(1)]
  obtain c2 where "c2 \<in> set (commands z)" "advances c1 c2" by blast
  with c1(2) show ?case using advances_trans by blast
qed

lemma ledger_step_new_pending:
  assumes "ledger_step st st'" and "c' \<in> set (commands st')"
    and "cmd_id c' \<notin> set (map cmd_id (commands st))"
  shows "cmd_status c' = Pending"
  using assms(1)
proof (cases rule: ledger_step.cases)
  case (l_enqueue a cmd now r)
  obtain cid ev where r: "r = (cid, ev)" by (cases r)
  from send_command_effect(6)[OF l_enqueue[unfolded r]] assms(2,3)
  show ?thesis by auto
next
  case (l_claim a now r)
  from agent_checkin_effect(1)[OF l_claim] assms(2,3)
  show ?thesis by auto
next
  case (l_ingest a cid res now r)
  from submit_result_effect(1)[OF l_ingest] assms(2,3)
  show ?thesis by force
qed

text \<open>
  C4. Start in any reachable state and run enqueue, check-in and result ingestion in any
  order. Every command of the start state is still stored after the last step, under the
  same id and with the same owning agent, and its status has not moved backwards in the
  order PENDING, SENT, COMPLETED or FAILED. A command that a step adds starts as pending.
  Ids stay distinct, so the stored command with a given id is the same command.
\<close>

theorem status_only_advances:
  assumes "reachable st0" and "ledger_step\<^sup>*\<^sup>* st0 st" and "ledger_step st st'"
  shows "(\<forall>c \<in> set (commands st0). \<exists>c' \<in> set (commands st'). advances c c') \<and>
         (\<forall>c' \<in> set (commands st').
            cmd_id c' \<notin> set (map cmd_id (commands st)) \<longrightarrow> cmd_status c' = Pending) \<and>
         distinct (map cmd_id (commands st'))"
proof (intro conjI ballI impI)
  fix c assume "c \<in> set (commands st0)"
  moreover from assms(2,3) have "ledger_step\<^sup>*\<^sup>* st0 st'" by (rule rtranclp.rtrancl_into_rtrancl)
  ultimately show "\<exists>c' \<in> set (commands st'). advances c c'"
    by (rule ledger_steps_advances[rotated])
next
  fix c' assume "c' \<in> set (commands st')" "cmd_id c' \<notin> set (map cmd_id (commands st))"
  with assms(3) show "cmd_status c' = Pending" by (rule ledger_step_new_pending)
next
  from assms have "reachable st'"
    using ledger_steps_reachable ledger_step_reachable by blast
  then show "distinct (map cmd_id (commands st'))"
    using reachable_ledger_inv by (simp add: ledger_inv_def)
qed

theorem status_only_advances_witness:
  "reachable (demo_state 1 [demo_command Pending None None] [] [CommandSent ''agent-1'' 1]) \<and>
   ledger_step
     (demo_state 1 [demo_command Pending None None] [] [CommandSent ''agent-1'' 1])
     (demo_state 1 [demo_command Completed (Some 3) (Some ''root'')] []
        [CommandSent ''agent-1'' 1, ResultReceived ''agent-1'']) \<and>
   advances (demo_command Pending None None) (demo_command Completed (Some 3) (Some ''root''))"
proof -
  let ?s = "demo_state 1 [demo_command Pending None None] [] [CommandSent ''agent-1'' 1]"
  let ?t = "demo_state 1 [demo_command Completed (Some 3) (Some ''root'')] []
        [CommandSent ''agent-1'' 1, ResultReceived ''agent-1'']"
  have "submit_result ''agent-1'' (Some 1) (Some ''root'') 3 ?s
        = Inr (?t, [CommandResult ''agent-1'' (Some 1) (Some ''root'')])"
    by (simp add: submit_result_def demo_defs complete_def log_activity_def)
  then have step: "ledger_step ?s ?t" by (rule l_ingest)
  have refl: "ledger_step\<^sup>*\<^sup>* ?s ?s" by simp
  from status_only_advances [OF reachable_demo_enqueued refl step]
  have "\<forall>c \<in> set (commands ?s). \<exists>c' \<in> set (commands ?t). advances c c'" by blast
  then have "advances (demo_command Pending None None)
               (demo_command Completed (Some 3) (Some ''root''))"
    by (simp add: demo_state_def)
  with reachable_demo_enqueued step show ?thesis by blast
qed

section \<open>Result ingestion (claim C2)\<close>

text \<open>
  C2, as amended. For every agent id A, command id C and result, \<open>submit_result\<close> never
  answers NotFound. When C is absent or within SQLite's 64-bit integer range the request
  is accepted with 200, whether or not a command with id C belongs to A and whatever
  that command's status is: a command with id C that belongs to A gets status completed,
  the execution time and the submitted result, so a second call for the same command
  succeeds and replaces the stored result; every other command is left as it was, and
  when no command matches, no command changes. When C is outside that range the request
  fails with a server error.
\<close>

theorem submit_result_overwrites:
  "(binds cid \<longrightarrow>
      (\<exists>st'. submit_result A cid res now st = Inr (st', [CommandResult A cid res]) \<and>
         length (commands st') = length (commands st) \<and>
         (\<forall>i < length (commands st).
            (if cid = Some (int (cmd_id (commands st ! i))) \<and> cmd_agent_id (commands st ! i) = A
             then commands st' ! i =
                    (commands st ! i)\<lparr>cmd_status := Completed, cmd_executed_at := Some now,
                                       cmd_result := res\<rparr>
             else commands st' ! i = commands st ! i)))) \<and>
   (\<not> binds cid \<longrightarrow> submit_result A cid res now st = Inl ServerError) \<and>
   submit_result A cid res now st \<noteq> Inl AgentNotFound"
  by (auto simp: submit_result_def complete_def)

theorem submit_result_overwrites_witness:
  "binds (Some 1) \<and>
   (\<exists>st'. submit_result ''agent-1'' (Some 1) (Some ''overwritten'') 5
       (demo_state 1 [demo_command Completed (Some 3) (Some ''root'')] [] [])
     = Inr (st', [CommandResult ''agent-1'' (Some 1) (Some ''overwritten'')]) \<and>
     commands st' = [demo_command Completed (Some 5) (Some ''overwritten'')]) \<and>
   \<not> binds (Some (2 ^ 63)) \<and>
   submit_result ''agent-1'' (Some (2 ^ 63)) (Some ''overwritten'') 5
       (demo_state 1 [demo_command Completed (Some 3) (Some ''root'')] [] [])
     = Inl ServerError"
proof -
  let ?st = "demo_state 1 [demo_command Completed (Some 3) (Some ''root'')] [] []"
  have b: "binds (Some 1)" by simp
  have nb: "\<not> binds (Some (2 ^ 63))" by (simp add: binds_def sqlite_integer_def)
  from submit_result_overwrites [of "Some 1" "''agent-1''" "Some ''overwritten''" 5 ?st] b
  obtain st' where
    a: "submit_result ''agent-1'' (Some 1) (Some ''overwritten'') 5 ?st
        = Inr (st', [CommandResult ''agent-1'' (Some 1) (Some ''overwritten'')])"
    and l: "length (commands st') = 1"
    and c: "commands st' ! 0 = demo_command Completed (Some 5) (Some ''overwritten'')"
    by (auto simp: demo_defs)
  from l c have "commands st' = [demo_command Completed (Some 5) (Some ''overwritten'')]"
    by (cases "commands st'") auto
  with a have 1: "\<exists>st'. submit_result ''agent-1'' (Some 1) (Some ''overwritten'') 5 ?st
     = Inr (st', [CommandResult ''agent-1'' (Some 1) (Some ''overwritten'')]) \<and>
     commands st' = [demo_command Completed (Some 5) (Some ''overwritten'')]" by blast
  from submit_result_overwrites [of "Some (2 ^ 63)" "''agent-1''" "Some ''overwritten''" 5 ?st] nb
  have 2: "submit_result ''agent-1'' (Some (2 ^ 63)) (Some ''overwritten'') 5 ?st = Inl ServerError"
    by blast
  from b 1 nb 2 show ?thesis by blast
qed

text \<open>
  C2 as stated fails. The result for command 1 of \<open>agent-1\<close> is accepted although the
  command is pending and was never SENT; a second result for it is accepted as well and
  replaces the stored result \<open>root\<close> and the execution time; and a result for command 7,
  which does not exist, is accepted too and changes no command.
\<close>

theorem record_result_counterexample:
  "reachable (demo_state 1 [demo_command Pending None None] [] [CommandSent ''agent-1'' 1]) \<and>
   submit_result ''agent-1'' (Some 1) (Some ''root'') 3
     (demo_state 1 [demo_command Pending None None] [] [CommandSent ''agent-1'' 1])
   = Inr (demo_state 1 [demo_command Completed (Some 3) (Some ''root'')] []
            [CommandSent ''agent-1'' 1, ResultReceived ''agent-1''],
          [CommandResult ''agent-1'' (Some 1) (Some ''root'')]) \<and>
   submit_result ''agent-1'' (Some 1) (Some ''overwritten'') 5
     (demo_state 1 [demo_command Completed (Some 3) (Some ''root'')] []
        [CommandSent ''agent-1'' 1, ResultReceived ''agent-1''])
   = Inr (demo_state 1 [demo_command Completed (Some 5) (Some ''overwritten'')] []
            [CommandSent ''agent-1'' 1, ResultReceived ''agent-1'', ResultReceived ''agent-1''],
          [CommandResult ''agent-1'' (Some 1) (Some ''overwritten'')]) \<and>
   submit_result ''agent-1'' (Some 7) (Some ''stray'') 5
     (demo_state 1 [demo_command Completed (Some 3) (Some ''root'')] []
        [CommandSent ''agent-1'' 1, ResultReceived ''agent-1''])
   = Inr (demo_state 1 [demo_command Completed (Some 3) (Some ''root'')] []
            [CommandSent ''agent-1'' 1, ResultReceived ''agent-1'', ResultReceived ''agent-1''],
          [CommandResult ''agent-1'' (Some 7) (Some ''stray'')])"
  using reachable_demo_enqueued
  by (simp add: submit_result_def demo_defs complete_def log_activity_def)

section \<open>Registration (claim C5)\<close>




section \<open>The denylist (claim C6)\<close>

text \<open>\<open>startswith\<close> and \<open>contains\<close> are the prefix and the substring relation.\<close>

lemma startswith_iff: "startswith s p \<longleftrightarrow> (\<exists>v. s = p @ v)"
  by (induction s p rule: startswith.induct) auto

lemma contains_iff: "contains p s \<longleftrightarrow> (\<exists>u v. s = u @ p @ v)"
proof (induction s)
  case Nil
  then show ?case by auto
next
  case (Cons c cs)
  show ?case
  proof
    assume "contains p (c # cs)"
    then consider "startswith (c # cs) p" | "contains p cs" by auto
    then show "\<exists>u v. c # cs = u @ p @ v"
    proof cases
      case 1
      then obtain v where "c # cs = p @ v" using startswith_iff by blast
      then have "c # cs = [] @ p @ v" by simp
      then show ?thesis by blast
    next
      case 2
      then obtain u v where "cs = u @ p @ v" using Cons.IH by blast
      then have "c # cs = (c # u) @ p @ v" by simp
      then show ?thesis by blast
    qed
  next
    assume "\<exists>u v. c # cs = u @ p @ v"
    then obtain u v where uv: "c # cs = u @ p @ v" by blast
    show "contains p (c # cs)"
    proof (cases u)
      case Nil
      with uv have "startswith (c # cs) p" using startswith_iff by auto
      then show ?thesis by simp
    next
      case (Cons a u')
      with uv have "cs = u' @ p @ v" by simp
      then have "contains p cs" using Cons.IH by blast
      then show ?thesis by simp
    qed
  qed
qed

lemma is_forbidden_iff:
  "is_forbidden command \<longleftrightarrow>
     (\<exists>p \<in> set forbidden_commands. \<exists>u v. lower command = u @ p @ v)"
  by (simp add: is_forbidden_def list_ex_iff contains_iff)

lemmas lower_simps = kelvin_sign_def capital_i_dot_def lower_char_def

lemma builtins_not_forbidden:
  "\<not> is_forbidden ''pwd''" "\<not> is_forbidden ''whoami''"
  "\<not> is_forbidden ''hostname''" "\<not> is_forbidden ''sysinfo''"
  by (simp_all add: is_forbidden_def forbidden_commands_def lower_simps)

lemma forbidden_not_builtin:
  assumes "is_forbidden command"
  shows "command \<noteq> ''pwd''" "command \<noteq> ''whoami''" "command \<noteq> ''hostname''"
    "command \<noteq> ''sysinfo''"
  using assms builtins_not_forbidden by auto

lemma texts_differ:
  "cd_error_text msg \<noteq> forbidden_text" "cd_text dir \<noteq> forbidden_text"
  by (simp_all add: cd_error_text_def cd_text_def forbidden_text_def cross_mark_def)

text \<open>
  C6, as amended. Let the lower-cased command text contain a pattern of the denylist.
  The shell is never invoked. If the command does not start with \<open>cd\<close> and a space,
  \<open>execute_command\<close> returns the forbidden-command text and does nothing to the host. If
  it does, the command is handled by the \<open>cd\<close> branch, which comes first: the only effect
  is \<open>os.chdir\<close> on the stripped rest of the text, and the result is the text of the
  directory change (when it succeeds and the new directory can be read) or the text of
  its error, neither of which is the forbidden-command text.
\<close>

theorem forbidden_command_rejected:
  assumes "\<exists>p \<in> set forbidden_commands. \<exists>u v. lower command = u @ p @ v"
  shows "(\<not> startswith command ''cd '' \<longrightarrow>
            execute_command h wd command = (Inr forbidden_text, wd, [])) \<and>
         (startswith command ''cd '' \<and> os_chdir h wd (strip (drop 3 command)) = Inl msg \<longrightarrow>
            execute_command h wd command
              = (Inr (cd_error_text msg), wd, [Chdir (strip (drop 3 command))])) \<and>
         (startswith command ''cd '' \<and> os_chdir h wd (strip (drop 3 command)) = Inr wd' \<and>
          os_getcwd h wd' = Inl msg \<longrightarrow>
            execute_command h wd command
              = (Inr (cd_error_text msg), wd', [Chdir (strip (drop 3 command))])) \<and>
         (startswith command ''cd '' \<and> os_chdir h wd (strip (drop 3 command)) = Inr wd' \<and>
          os_getcwd h wd' = Inr dir \<longrightarrow>
            execute_command h wd command
              = (Inr (cd_text dir), wd', [Chdir (strip (drop 3 command))])) \<and>
         cd_error_text msg \<noteq> forbidden_text \<and> cd_text dir \<noteq> forbidden_text \<and>
         (\<forall>e \<in> set (snd (snd (execute_command h wd command))). \<not> is_shell e)"
proof -
  from assms have f: "is_forbidden command" by (simp add: is_forbidden_iff)
  note nb = forbidden_not_builtin[OF f]
  have a: "execute_command h wd command = (Inr forbidden_text, wd, [])"
    if "\<not> startswith command ''cd ''"
    using that f nb by (simp add: execute_command_def execute_body_def)
  have b: "execute_command h wd command
              = (Inr (cd_error_text msg), wd, [Chdir (strip (drop 3 command))])"
    if "startswith command ''cd ''" "os_chdir h wd (strip (drop 3 command)) = Inl msg"
    using that by (simp add: execute_command_def execute_body_def)
  have c: "execute_command h wd command
              = (Inr (cd_error_text msg), wd', [Chdir (strip (drop 3 command))])"
    if "startswith command ''cd ''" "os_chdir h wd (strip (drop 3 command)) = Inr wd'"
      "os_getcwd h wd' = Inl msg"
    using that by (simp add: execute_command_def execute_body_def)
  have d: "execute_command h wd command
              = (Inr (cd_text dir), wd', [Chdir (strip (drop 3 command))])"
    if "startswith command ''cd ''" "os_chdir h wd (strip (drop 3 command)) = Inr wd'"
      "os_getcwd h wd' = Inr dir"
    using that by (simp add: execute_command_def execute_body_def)
  have e: "\<forall>e \<in> set (snd (snd (execute_command h wd command))). \<not> is_shell e"
  proof (cases "startswith command ''cd ''")
    case True
    then show ?thesis
      by (simp add: execute_command_def execute_body_def is_shell_def Let_def
          split: sum.splits)
  next
    case False
    from a[OF this] show ?thesis by simp
  qed
  from a b c d e texts_differ show ?thesis by blast
qed

lemma kelvin_mkfs_matches:
  "\<exists>p \<in> set forbidden_commands. \<exists>u v. lower (''M'' @ kelvin_sign @ ''FS /dev/sda1'') = u @ p @ v"
proof -
  have "is_forbidden (''M'' @ kelvin_sign @ ''FS /dev/sda1'')"
    by (simp add: is_forbidden_def forbidden_commands_def lower_simps)
  then show ?thesis by (simp only: is_forbidden_iff)
qed

theorem forbidden_command_rejected_witness:
  "(\<exists>p \<in> set forbidden_commands.
      \<exists>u v. lower (''M'' @ kelvin_sign @ ''FS /dev/sda1'') = u @ p @ v) \<and>
   \<not> startswith (''M'' @ kelvin_sign @ ''FS /dev/sda1'') ''cd '' \<and>
   execute_command demo_host ''/home'' (''M'' @ kelvin_sign @ ''FS /dev/sda1'')
     = (Inr forbidden_text, ''/home'', [])"
proof -
  have n: "\<not> startswith (''M'' @ kelvin_sign @ ''FS /dev/sda1'') ''cd ''" by simp
  from forbidden_command_rejected [OF kelvin_mkfs_matches, of demo_host "''/home''"] n
    kelvin_mkfs_matches
  show ?thesis by blast
qed

lemma cd_rm_rf_matches:
  "\<exists>p \<in> set forbidden_commands.
     \<exists>u v. lower (''cd rm -rf'' @ [CHR 0xC2, CHR 0xA0]) = u @ p @ v"
proof -
  have "is_forbidden (''cd rm -rf'' @ [CHR 0xC2, CHR 0xA0])"
    by (simp add: is_forbidden_def forbidden_commands_def lower_simps)
  then show ?thesis by (simp only: is_forbidden_iff)
qed

text \<open>
  C6 as stated fails: \<open>cd rm -rf\<close> followed by a no-break space contains the pattern
  \<open>rm -rf\<close>; the agent calls \<open>os.chdir\<close> on \<open>rm -rf\<close> and the result is the text of the
  failed directory change, not the forbidden-command text.
\<close>

theorem forbidden_cd_counterexample:
  "(\<exists>p \<in> set forbidden_commands.
      \<exists>u v. lower (''cd rm -rf'' @ [CHR 0xC2, CHR 0xA0]) = u @ p @ v) \<and>
   execute_command demo_host ''/home'' (''cd rm -rf'' @ [CHR 0xC2, CHR 0xA0])
     = (Inr (cd_error_text ''No such file or directory''), ''/home'', [Chdir ''rm -rf'']) \<and>
   cd_error_text ''No such file or directory'' \<noteq> forbidden_text"
proof -
  have "execute_command demo_host ''/home'' (''cd rm -rf'' @ [CHR 0xC2, CHR 0xA0])
     = (Inr (cd_error_text ''No such file or directory''), ''/home'', [Chdir ''rm -rf''])"
    by (simp add: execute_command_def execute_body_def demo_host_def strip_def whitespace_def)
  moreover have "cd_error_text ''No such file or directory'' \<noteq> forbidden_text"
    by (rule texts_differ)
  ultimately show ?thesis using cd_rm_rf_matches by blast
qed

section \<open>No exception leaves \<open>execute_command\<close> (claim C7)\<close>

text \<open>
  C7. For every host, working directory and command string, \<open>execute_command\<close> returns a
  result string: no exception reaches its caller. Every failure of the host is turned
  into a result text. In the shell branch a \<open>TimeoutExpired\<close> raised by \<open>subprocess.run\<close>
  gives the timeout text, any other exception it raises gives the error text with its
  message, and so does a failing \<open>os.getcwd\<close>, in which case the shell is not run. A
  failing \<open>os.getcwd\<close> in \<open>pwd\<close>, \<open>getpass.getuser\<close> in \<open>whoami\<close> and \<open>sysinfo\<close>, and
  \<open>socket.gethostname\<close> in \<open>hostname\<close> and \<open>sysinfo\<close> give the error text with their
  message. A failing \<open>os.chdir\<close>, or \<open>os.getcwd\<close> after it, gives the text of the \<open>cd\<close>
  error.
\<close>

theorem execute_command_total:
  "(\<exists>s wd' effects. execute_command h wd command = (Inr s, wd', effects)) \<and>
   (is_generic command \<and> os_getcwd h wd = Inr dir \<and> subprocess_run h command dir = TimedOut \<longrightarrow>
      execute_command h wd command = (Inr timeout_text, wd, [Shell command dir])) \<and>
   (is_generic command \<and> os_getcwd h wd = Inr dir \<and> subprocess_run h command dir = Raised msg \<longrightarrow>
      execute_command h wd command = (Inr (error_text msg), wd, [Shell command dir])) \<and>
   (is_generic command \<and> os_getcwd h wd = Inl msg \<longrightarrow>
      execute_command h wd command = (Inr (error_text msg), wd, [])) \<and>
   (os_getcwd h wd = Inl msg \<longrightarrow>
      execute_command h wd ''pwd'' = (Inr (error_text msg), wd, [])) \<and>
   (getuser h = Inl msg \<longrightarrow>
      execute_command h wd ''whoami'' = (Inr (error_text msg), wd, [])) \<and>
   (gethostname h = Inl msg \<longrightarrow>
      execute_command h wd ''hostname'' = (Inr (error_text msg), wd, []) \<and>
      execute_command h wd ''sysinfo'' = (Inr (error_text msg), wd, [])) \<and>
   (gethostname h = Inr name \<and> getuser h = Inl msg \<longrightarrow>
      execute_command h wd ''sysinfo'' = (Inr (error_text msg), wd, [])) \<and>
   (startswith command ''cd '' \<and> os_chdir h wd (strip (drop 3 command)) = Inl msg \<longrightarrow>
      execute_command h wd command
        = (Inr (cd_error_text msg), wd, [Chdir (strip (drop 3 command))])) \<and>
   (startswith command ''cd '' \<and> os_chdir h wd (strip (drop 3 command)) = Inr wd' \<and>
    os_getcwd h wd' = Inl msg \<longrightarrow>
      execute_command h wd command
        = (Inr (cd_error_text msg), wd', [Chdir (strip (drop 3 command))]))"
proof (intro conjI impI)
  show "\<exists>s wd' effects. execute_command h wd command = (Inr s, wd', effects)"
    by (simp add: execute_command_def split: prod.splits sum.splits exn.splits)
qed (simp_all add: execute_command_def execute_body_def raise_of_def is_generic_def)

theorem execute_command_total_witness:
  "is_generic ''sleep 60'' \<and>
   os_getcwd demo_host ''/home'' = Inr ''/home'' \<and>
   subprocess_run demo_host ''sleep 60'' ''/home'' = TimedOut \<and>
   execute_command demo_host ''/home'' ''sleep 60''
     = (Inr timeout_text, ''/home'', [Shell ''sleep 60'' ''/home'']) \<and>
   gethostname nameless_host = Inl ''host name lookup failure'' \<and>
   execute_command nameless_host ''/home'' ''sysinfo''
     = (Inr (error_text ''host name lookup failure''), ''/home'', [])"
proof -
  have 1: "is_generic ''sleep 60''"
    by (simp add: is_generic_def is_forbidden_def forbidden_commands_def lower_simps)
  have 2: "os_getcwd demo_host ''/home'' = Inr ''/home''"
    and 3: "subprocess_run demo_host ''sleep 60'' ''/home'' = TimedOut"
    by (simp_all add: demo_host_def)
  have 4: "gethostname nameless_host = Inl ''host name lookup failure''"
    by (simp add: nameless_host_def)
  from execute_command_total [of demo_host "''/home''" "''sleep 60''" "''/home''"] 1 2 3
  have a: "execute_command demo_host ''/home'' ''sleep 60''
     = (Inr timeout_text, ''/home'', [Shell ''sleep 60'' ''/home''])" by blast
  from execute_command_total [where h = nameless_host and wd = "''/home''"
      and msg = "''host name lookup failure''"] 4
  have b: "execute_command nameless_host ''/home'' ''sysinfo''
     = (Inr (error_text ''host name lookup failure''), ''/home'', [])" by blast
  from 1 2 3 a 4 b show ?thesis by blast
qed

end
